theory Spec2Isabelle
  imports Main "HOL-Library.Word"
begin

unbundle bit_operations_syntax

section \<open>MavFTP client of node-mavlink-ftp (src/index.ts)\<close>

text \<open>
  A shallow embedding of \<^verbatim>\<open>src/index.ts\<close>: the payload serializer, the directory
  listing parser, and the \<^verbatim>\<open>MavFTP\<close> class with its retrying \<^verbatim>\<open>send\<close> and the
  operations built on it. Exceptions are values of the type \<open>error\<close>; a function that
  can throw returns \<open>error + 'a\<close> with \<open>Inl\<close> for the exception. The fields of the class
  and the outside world it talks to are one record that every method takes and returns.
\<close>

subsection \<open>Numbers, bytes and errors\<close>

text \<open>
  \<^verbatim>\<open>uint8_t\<close>, \<^verbatim>\<open>uint16_t\<close> and \<^verbatim>\<open>uint32_t\<close> are the types the interface
  \<^verbatim>\<open>FileTransferProtocolPayload\<close> declares for its fields; a \<^verbatim>\<open>Uint8Array\<close> is a list
  of bytes. The private fields \<^verbatim>\<open>session\<close> and \<^verbatim>\<open>sequence\<close> of the class are plain
  JavaScript numbers and are natural numbers here: \<^verbatim>\<open>this.sequence++\<close> does not wrap.
\<close>

type_synonym uint8_t = "8 word"
type_synonym uint16_t = "16 word"
type_synonym uint32_t = "32 word"

text \<open>Why one transmission attempt of \<^verbatim>\<open>send\<close> ended in its \<^verbatim>\<open>catch\<close> block.\<close>

datatype failure = TimedOut | WriteFailed

text \<open>The name \<^verbatim>\<open>FileTransferProtocolError[n]\<close> looks up (lines 207-219).\<close>

datatype FileTransferProtocolError =
    None_code | Fail | FailErrno | InvalidDataSize | InvalidSession | NoSessionsAvailable
  | EOF | UnknownCommand | FileExists | FileProtected | FileNotFound

text \<open>
  The exceptions of the file:
  \<^item> \<open>RangeError\<close>: Node's \<^verbatim>\<open>ERR_OUT_OF_RANGE\<close>, thrown by the \<^verbatim>\<open>Buffer\<close> read and
    write methods for an offset outside the buffer or a value outside the width;
  \<^item> \<open>UnknownEntryType b\<close>: \<^verbatim>\<open>Error(`Unknown entry type: ${data[i]}`)\<close>;
  \<^item> \<open>SendingFailed f\<close>: \<^verbatim>\<open>Error(`Sending MavFTP message failed: ${e.message}`)\<close>,
    with the reason \<open>f\<close> of the last attempt;
  \<^item> \<open>DidNotExpectToLandHere\<close>: \<^verbatim>\<open>Error('Did not expect to land here...')\<close>;
  \<^item> \<open>NoResponse\<close>: \<^verbatim>\<open>Error('no response')\<close>;
  \<^item> \<open>FilesystemError b\<close>: \<^verbatim>\<open>Error(`Filesystem error (${response.data[0]})`)\<close>;
  \<^item> \<open>ProtocolError n\<close>: \<^verbatim>\<open>Error(FileTransferProtocolError[response.data[0]])\<close>, where
    \<open>n\<close> is the looked-up name, \<open>None\<close> when the lookup gives \<^verbatim>\<open>undefined\<close>;
  \<^item> \<open>UnableToRead b\<close>: \<^verbatim>\<open>Error(`Unable to read contents of file: ${response?.data[0]}`)\<close>.
\<close>

datatype error =
    RangeError
  | UnknownEntryType uint8_t
  | SendingFailed failure
  | DidNotExpectToLandHere
  | NoResponse
  | FilesystemError uint8_t
  | ProtocolError "FileTransferProtocolError option"
  | UnableToRead "uint8_t option"

subsection \<open>The payload and its serializer (lines 25-114)\<close>

text \<open>
  The optional fields \<^verbatim>\<open>reqOpcode?\<close> and \<^verbatim>\<open>offset?\<close> are options (\<open>None\<close> is
  \<^verbatim>\<open>undefined\<close>). The field \<^verbatim>\<open>size\<close> is \<open>size_f\<close> here.
\<close>

record FileTransferProtocolPayload =
  seq :: uint16_t
  session :: uint8_t
  opcode :: uint8_t
  size_f :: uint8_t
  reqOpcode :: "uint8_t option"
  burstComplete :: uint8_t
  offset :: "uint32_t option"
  data :: "uint8_t list"

text \<open>The bytes \<^verbatim>\<open>writeUInt16LE\<close> and \<^verbatim>\<open>writeUInt32LE\<close> store, lowest byte first.\<close>

definition writeUInt16LE :: "uint16_t \<Rightarrow> uint8_t list" where
  "writeUInt16LE v = [ucast v, ucast (drop_bit 8 v)]"

definition writeUInt32LE :: "uint32_t \<Rightarrow> uint8_t list" where
  "writeUInt32LE v = [ucast v, ucast (drop_bit 8 v), ucast (drop_bit 16 v), ucast (drop_bit 24 v)]"

text \<open>
  \<^verbatim>\<open>serialize\<close> allocates \<open>12 + data.length\<close> zero bytes and writes every field at its
  offset; all writes are inside the buffer, so the result is the concatenation below.
  \<^verbatim>\<open>x || 0\<close> is \<open>0\<close> for an undefined \<open>x\<close>. Byte 7 is written as \<open>0\<close>.
\<close>

definition serialize :: "FileTransferProtocolPayload \<Rightarrow> uint8_t list" where
  "serialize payload =
     writeUInt16LE (seq payload)
     @ [session payload,
        opcode payload,
        size_f payload,
        (case reqOpcode payload of None \<Rightarrow> 0 | Some r \<Rightarrow> r),
        burstComplete payload,
        0]
     @ writeUInt32LE (case offset payload of None \<Rightarrow> 0 | Some off \<Rightarrow> off)
     @ data payload"

text \<open>The \<^verbatim>\<open>Buffer\<close> reads: a read that does not fit in the buffer throws.\<close>

definition readUInt8 :: "uint8_t list \<Rightarrow> nat \<Rightarrow> error + uint8_t" where
  "readUInt8 buffer off =
     (if off + 1 \<le> length buffer then Inr (buffer ! off) else Inl RangeError)"

definition readUInt16LE :: "uint8_t list \<Rightarrow> nat \<Rightarrow> error + uint16_t" where
  "readUInt16LE buffer off =
     (if off + 2 \<le> length buffer
      then Inr (ucast (buffer ! off) OR push_bit 8 (ucast (buffer ! (off + 1))))
      else Inl RangeError)"

definition readUInt32LE :: "uint8_t list \<Rightarrow> nat \<Rightarrow> error + uint32_t" where
  "readUInt32LE buffer off =
     (if off + 4 \<le> length buffer
      then Inr (ucast (buffer ! off) OR push_bit 8 (ucast (buffer ! (off + 1)))
                OR push_bit 16 (ucast (buffer ! (off + 2)))
                OR push_bit 24 (ucast (buffer ! (off + 3))))
      else Inl RangeError)"

text \<open>Sequencing of steps that can throw: the first exception ends the computation.\<close>

definition bind :: "error + 'a \<Rightarrow> ('a \<Rightarrow> error + 'b) \<Rightarrow> error + 'b" where
  "bind m f = (case m of Inl e \<Rightarrow> Inl e | Inr x \<Rightarrow> f x)"

text \<open>The loop of line 110: \<open>result.data[i] = buffer.readUInt8(12 + i)\<close> for \<open>i < n\<close>.\<close>

fun read_data :: "uint8_t list \<Rightarrow> nat \<Rightarrow> nat \<Rightarrow> error + uint8_t list" where
  "read_data buffer i 0 = Inr []"
| "read_data buffer i (Suc n) =
     bind (readUInt8 buffer (12 + i)) (\<lambda>b.
     bind (read_data buffer (Suc i) n) (\<lambda>bs. Inr (b # bs)))"

definition deserialize :: "uint8_t list \<Rightarrow> error + FileTransferProtocolPayload" where
  "deserialize buffer =
     bind (readUInt8 buffer 4) (\<lambda>sz.
     bind (readUInt16LE buffer 0) (\<lambda>sq.
     bind (readUInt8 buffer 2) (\<lambda>se.
     bind (readUInt8 buffer 3) (\<lambda>opc.
     bind (readUInt8 buffer 5) (\<lambda>req.
     bind (readUInt8 buffer 6) (\<lambda>burst.
     bind (readUInt32LE buffer 8) (\<lambda>off.
     bind (read_data buffer 0 (unat sz)) (\<lambda>d.
       Inr \<lparr>seq = sq, session = se, opcode = opc, size_f = sz, reqOpcode = Some req,
            burstComplete = burst, offset = Some off, data = d\<rparr>))))))))"

subsection \<open>The directory listing parser (lines 116-190)\<close>

text \<open>
  A JavaScript number that \<^verbatim>\<open>parseInt\<close> can return: an integer or \<^verbatim>\<open>NaN\<close>. Integers
  are exact here; JavaScript rounds those above \<open>2^53\<close> to the nearest double.
\<close>

datatype number = Num int | NaN

text \<open>
  \<^verbatim>\<open>parseInt(string)\<close> of ECMAScript with no radix, on strings of code units below 256:
  leading white space is skipped, a sign is read, \<^verbatim>\<open>0x\<close> or \<^verbatim>\<open>0X\<close> selects radix 16 and
  is skipped, then the longest run of digits of the radix is the value; no digit gives
  \<^verbatim>\<open>NaN\<close>.
\<close>

definition isStrWhiteSpaceChar :: "char \<Rightarrow> bool" where
  "isStrWhiteSpaceChar c = ((of_char c :: nat) \<in> set [9, 10, 11, 12, 13, 32, 160])"

definition digitValue :: "char \<Rightarrow> nat option" where
  "digitValue c =
     (let n = (of_char c :: nat)
      in if 48 \<le> n \<and> n \<le> 57 then Some (n - 48)
         else if 97 \<le> n \<and> n \<le> 122 then Some (n - 87)
         else if 65 \<le> n \<and> n \<le> 90 then Some (n - 55)
         else None)"

definition isDigit :: "nat \<Rightarrow> char \<Rightarrow> bool" where
  "isDigit R c = (case digitValue c of None \<Rightarrow> False | Some d \<Rightarrow> d < R)"

definition parseInt :: "string \<Rightarrow> number" where
  "parseInt inputString =
     (let S = dropWhile isStrWhiteSpaceChar inputString;
          sign = (if S \<noteq> [] \<and> hd S = CHR ''-'' then - 1 else 1 :: int);
          S1 = (if S \<noteq> [] \<and> (hd S = CHR ''+'' \<or> hd S = CHR ''-'') then tl S else S);
          hex = (take 2 S1 = ''0x'' \<or> take 2 S1 = ''0X'');
          R = (if hex then 16 else 10 :: nat);
          S2 = (if hex then drop 2 S1 else S1);
          Z = takeWhile (isDigit R) S2
      in if Z = [] then NaN
         else Num (sign * int (foldl (\<lambda>a c. a * R + (case digitValue c of None \<Rightarrow> 0 | Some d \<Rightarrow> d)) 0 Z)))"

text \<open>
  \<^verbatim>\<open>MavFTPDirectoryListingEntry\<close>. The type is the string \<^verbatim>\<open>'file'\<close> or
  \<^verbatim>\<open>'directory'\<close>, as in the source; the size is \<open>None\<close> for \<^verbatim>\<open>null\<close>.
\<close>

record MavFTPDirectoryListingEntry =
  entry_type :: string
  entry_name :: string
  entry_size :: "number option"

text \<open>The values of the enum \<^verbatim>\<open>MavFTPDirectoryListingParserState\<close>.\<close>

datatype MavFTPDirectoryListingParserState =
  State_TYPE | State_FILE_NAME | State_SIZE | State_DIR_NAME | State_STORE

text \<open>The local variable \<^verbatim>\<open>entry = { type: '', name: '', size: '' }\<close> of \<^verbatim>\<open>parse\<close>.\<close>

record entry_strings =
  acc_type :: string
  acc_name :: string
  acc_size :: string

definition empty_entry :: entry_strings where
  "empty_entry = \<lparr>acc_type = [], acc_name = [], acc_size = []\<rparr>"

text \<open>\<^verbatim>\<open>String.fromCharCode(data[i])\<close>: the character whose code is the byte.\<close>

definition fromCharCode :: "uint8_t \<Rightarrow> char" where
  "fromCharCode b = char_of (unat b)"

text \<open>
  The \<^verbatim>\<open>for\<close> loop of \<^verbatim>\<open>parse\<close>: one equation per \<^verbatim>\<open>case\<close> of the \<^verbatim>\<open>switch\<close>, the
  remaining bytes as the last argument. Every iteration consumes one byte, also the
  one in the state \<^verbatim>\<open>STORE\<close>, which pushes the entry and does not look at the byte.
\<close>

fun parse_loop :: "MavFTPDirectoryListingParserState \<Rightarrow> entry_strings
    \<Rightarrow> MavFTPDirectoryListingEntry list \<Rightarrow> uint8_t list
    \<Rightarrow> error + MavFTPDirectoryListingEntry list" where
  "parse_loop state entry result [] = Inr result"
| "parse_loop State_TYPE entry result (b # bs) =
     (if b = 70 then parse_loop State_FILE_NAME (entry\<lparr>acc_type := ''file''\<rparr>) result bs
      else if b = 68 then parse_loop State_DIR_NAME (entry\<lparr>acc_type := ''directory''\<rparr>) result bs
      else Inl (UnknownEntryType b))"
| "parse_loop State_FILE_NAME entry result (b # bs) =
     (if b = 9 then parse_loop State_SIZE entry result bs
      else parse_loop State_FILE_NAME (entry\<lparr>acc_name := acc_name entry @ [fromCharCode b]\<rparr>) result bs)"
| "parse_loop State_SIZE entry result (b # bs) =
     (if b = 0 then parse_loop State_STORE entry result bs
      else parse_loop State_SIZE (entry\<lparr>acc_size := acc_size entry @ [fromCharCode b]\<rparr>) result bs)"
| "parse_loop State_DIR_NAME entry result (b # bs) =
     (if b = 0 then parse_loop State_STORE entry result bs
      else parse_loop State_DIR_NAME (entry\<lparr>acc_name := acc_name entry @ [fromCharCode b]\<rparr>) result bs)"
| "parse_loop State_STORE entry result (b # bs) =
     parse_loop State_TYPE empty_entry
       (result @ [\<lparr>entry_type = acc_type entry,
                    entry_name = acc_name entry,
                    entry_size = (if acc_type entry = ''file''
                                  then Some (parseInt (acc_size entry)) else None)\<rparr>])
       bs"

definition parse :: "uint8_t list \<Rightarrow> error + MavFTPDirectoryListingEntry list" where
  "parse dat = parse_loop State_TYPE empty_entry [] dat"

subsection \<open>Opcodes and error codes\<close>

text \<open>
  The members of \<^verbatim>\<open>common.MavFtpOpcode\<close> the file uses. The enum is imported from the
  package mavlink-mappings; the values are those of MAV_FTP_OPCODE in MAVLink's common
  message set (the comment at line 205 of the source names 129 as the opcode of a NAK).
\<close>

definition TERMINATESESSION :: uint8_t where "TERMINATESESSION = 1"
definition RESETSESSION :: uint8_t where "RESETSESSION = 2"
definition LISTDIRECTORY :: uint8_t where "LISTDIRECTORY = 3"
definition OPENFILERO :: uint8_t where "OPENFILERO = 4"
definition READFILE :: uint8_t where "READFILE = 5"
definition REMOVEFILE :: uint8_t where "REMOVEFILE = 8"
definition ACK :: uint8_t where "ACK = 128"
definition NAK :: uint8_t where "NAK = 129"

text \<open>
  \<^verbatim>\<open>response.data[0]\<close>: the first byte, \<^verbatim>\<open>undefined\<close> (\<open>None\<close>) for empty data.
\<close>

definition data0 :: "FileTransferProtocolPayload \<Rightarrow> uint8_t option" where
  "data0 response = (case data response of [] \<Rightarrow> None | b # bs \<Rightarrow> Some b)"

text \<open>
  The reverse mapping \<^verbatim>\<open>FileTransferProtocolError[code]\<close> of the numeric enum: the
  member's name for the codes 0 to 10, \<^verbatim>\<open>undefined\<close> otherwise.
\<close>

definition FileTransferProtocolError_name ::
    "uint8_t option \<Rightarrow> FileTransferProtocolError option" where
  "FileTransferProtocolError_name code =
     (case code of
        None \<Rightarrow> None
      | Some b \<Rightarrow>
          (if unat b < 11
           then Some ([None_code, Fail, FailErrno, InvalidDataSize, InvalidSession,
                       NoSessionsAvailable, EOF, UnknownCommand, FileExists, FileProtected,
                       FileNotFound] ! unat b)
           else None))"

subsection \<open>The class MavFTP (lines 221-403)\<close>

text \<open>
  The message object \<^verbatim>\<open>common.FileTransferProtocol\<close> that \<^verbatim>\<open>packet\<close> fills in.
\<close>

record FileTransferProtocol =
  targetNetwork :: nat
  targetSystem :: nat
  targetComponent :: nat
  payload :: "uint8_t list"

text \<open>
  What happens at one transmission attempt of \<^verbatim>\<open>send\<close>, as the outside world decides
  it: the external \<^verbatim>\<open>send(this.port, msg, this.protocol)\<close> is rejected
  (\<open>TransmitFailure\<close>), or it succeeds and \<^verbatim>\<open>waitForEvent(this, 'ftp', timeout)\<close> times
  out (\<open>Timeout\<close>) or delivers the payload of an \<^verbatim>\<open>'ftp'\<close> event (\<open>Response\<close>).
\<close>

datatype outcome = Response FileTransferProtocolPayload | Timeout | TransmitFailure

text \<open>
  The state every method works on. \<open>this_session\<close> and \<open>this_sequence\<close> are the private
  fields \<^verbatim>\<open>session\<close> and \<^verbatim>\<open>sequence\<close>. \<open>this_port\<close> is what the port has been asked
  to transmit: the messages handed to the external \<^verbatim>\<open>send\<close>, oldest first. \<open>incoming\<close>
  is the outside world: the outcomes of the transmission attempts still to come, one per
  attempt; once the list is used up no event arrives any more and every further attempt
  times out. \<open>progress\<close> records the calls of the progress callback (a callback that
  returns normally).
\<close>

record MavFTP =
  this_session :: nat
  this_sequence :: nat
  this_port :: "FileTransferProtocol list"
  incoming :: "outcome list"
  progress :: "(nat \<times> nat) list"

text \<open>The field initialisers of lines 225-226, on a port that has sent nothing yet.\<close>

definition constructor :: "outcome list \<Rightarrow> MavFTP" where
  "constructor events =
     \<lparr>this_session = 1, this_sequence = 0, this_port = [], incoming = events, progress = []\<rparr>"

text \<open>
  The argument \<^verbatim>\<open>data: Uint8Array | string | number\<close> of \<^verbatim>\<open>packet\<close>. A string is a
  list of code units below 256 here.
\<close>

datatype packet_data = DataBytes "uint8_t list" | DataString string | DataNumber nat

text \<open>\<^verbatim>\<open>TextEncoder.encode\<close>: UTF-8, one byte below 128 and two bytes from 128 to 255.\<close>

definition encode :: "string \<Rightarrow> uint8_t list" where
  "encode s =
     concat (map (\<lambda>c. let n = (of_char c :: nat)
                       in if n < 128 then [of_nat n]
                          else [of_nat (192 + n div 64), of_nat (128 + n mod 64)]) s)"

text \<open>
  \<^verbatim>\<open>packet\<close> with the default addressing. The payload is built from the numbers
  \<^verbatim>\<open>this.sequence\<close>, \<^verbatim>\<open>this.session\<close>, the size and the offset; \<^verbatim>\<open>serialize\<close> writes
  them with \<^verbatim>\<open>writeUInt16LE\<close>, \<^verbatim>\<open>writeUInt8\<close> and \<^verbatim>\<open>writeUInt32LE\<close>, which throw a
  range error for a value that does not fit. That check is made here, where the numbers
  become fields of the declared widths. \<^verbatim>\<open>reqOpcode\<close> is left undefined.
\<close>

definition packet :: "MavFTP \<Rightarrow> uint8_t \<Rightarrow> packet_data \<Rightarrow> nat \<Rightarrow> error + FileTransferProtocol" where
  "packet this opc dat off =
     (let sz = (case dat of DataNumber n \<Rightarrow> n | DataString s \<Rightarrow> length s | DataBytes bs \<Rightarrow> length bs);
          d = (case dat of DataString s \<Rightarrow> encode s | DataNumber n \<Rightarrow> [] | DataBytes bs \<Rightarrow> bs)
      in if this_sequence this < 2 ^ 16 \<and> this_session this < 2 ^ 8 \<and> sz < 2 ^ 8 \<and> off < 2 ^ 32
         then Inr \<lparr>targetNetwork = 0, targetSystem = 1, targetComponent = 1,
                   payload = serialize
                     \<lparr>seq = of_nat (this_sequence this),
                      session = of_nat (this_session this),
                      opcode = opc,
                      size_f = of_nat sz,
                      reqOpcode = None,
                      burstComplete = 0,
                      offset = Some (of_nat off),
                      data = d\<rparr>\<rparr>
         else Inl RangeError)"

text \<open>
  One pass through the \<^verbatim>\<open>try\<close> block of \<^verbatim>\<open>send\<close> up to the event: the message is handed
  to the port and the next outcome of the outside world is consumed. Time is not
  modelled: \<open>timeout\<close> is the bound handed to \<^verbatim>\<open>waitForEvent\<close>, and whether the wait ran
  into it is what the outcome says.
\<close>

definition transmit :: "MavFTP \<Rightarrow> FileTransferProtocol \<Rightarrow> nat
    \<Rightarrow> (failure + FileTransferProtocolPayload) \<times> MavFTP" where
  "transmit this msg timeout =
     (let this' = this\<lparr>this_port := this_port this @ [msg], incoming := tl (incoming this)\<rparr>
      in case incoming this of
           [] \<Rightarrow> (Inl TimedOut, this')
         | Timeout # evs \<Rightarrow> (Inl TimedOut, this')
         | TransmitFailure # evs \<Rightarrow> (Inl WriteFailed, this')
         | Response response # evs \<Rightarrow> (Inr response, this'))"

text \<open>
  The \<^verbatim>\<open>while (retry > 0)\<close> loop of \<^verbatim>\<open>send\<close>; \<^verbatim>\<open>retry\<close> is an integer. The
  \<^verbatim>\<open>catch\<close> block counts the attempt (\<^verbatim>\<open>--retry\<close>) and either goes round again or throws;
  the \<^verbatim>\<open>throw\<close> after the loop is reached only when \<^verbatim>\<open>retry\<close> is not positive at the
  start.
\<close>

function send_loop :: "MavFTP \<Rightarrow> FileTransferProtocol \<Rightarrow> nat \<Rightarrow> int
    \<Rightarrow> (error + FileTransferProtocolPayload) \<times> MavFTP" where
  "send_loop this msg timeout retry =
     (if retry > 0
      then (case transmit this msg timeout of
              (Inr response, this') \<Rightarrow>
                (Inr response, this'\<lparr>this_sequence := unat (seq response)\<rparr>)
            | (Inl e, this') \<Rightarrow>
                (if retry - 1 > 0 then send_loop this' msg timeout (retry - 1)
                 else (Inl (SendingFailed e), this')))
      else (Inl DidNotExpectToLandHere, this))"
  by pat_completeness auto
termination
  by (relation "measure (\<lambda>(this, msg, timeout, retry). nat retry)") auto

text \<open>\<^verbatim>\<open>send\<close>: \<^verbatim>\<open>this.sequence++\<close> once, then the loop.\<close>

definition send :: "MavFTP \<Rightarrow> FileTransferProtocol \<Rightarrow> nat \<Rightarrow> int
    \<Rightarrow> (error + FileTransferProtocolPayload) \<times> MavFTP" where
  "send this msg timeout retry =
     send_loop (this\<lparr>this_sequence := this_sequence this + 1\<rparr>) msg timeout retry"

text \<open>
  \<^verbatim>\<open>_transform\<close> on a packet with message id \<open>msgid\<close> and FTP payload bytes: for
  the id of \<^verbatim>\<open>common.FileTransferProtocol\<close> (110 in MAVLink's common message set) the
  payload is decoded, its \<^verbatim>\<open>seq\<close> becomes the sequence, and the decoded payload is the
  \<^verbatim>\<open>'ftp'\<close> event emitted; any other packet passes with no effect.
\<close>

definition transform :: "MavFTP \<Rightarrow> nat \<Rightarrow> uint8_t list
    \<Rightarrow> error + (FileTransferProtocolPayload option \<times> MavFTP)" where
  "transform this msgid ftp_payload =
     (if msgid = 110
      then bind (deserialize ftp_payload)
             (\<lambda>p. Inr (Some p, this\<lparr>this_sequence := unat (seq p)\<rparr>))
      else Inr (None, this))"

definition handleError :: "FileTransferProtocolPayload option \<Rightarrow> error + unit" where
  "handleError response =
     (case response of
        None \<Rightarrow> Inl NoResponse
      | Some r \<Rightarrow>
          (if opcode r = NAK
           then (if data0 r = Some 2 then Inl (FilesystemError 2)
                 else Inl (ProtocolError (FileTransferProtocolError_name (data0 r))))
           else Inr ()))"

text \<open>
  A request of an operation: \<^verbatim>\<open>await this.send(this.packet(opcode, data, offset))\<close> with
  the default timeout 200 and retry 6. An exception of \<^verbatim>\<open>packet\<close> leaves before
  anything is sent.
\<close>

definition request :: "MavFTP \<Rightarrow> uint8_t \<Rightarrow> packet_data \<Rightarrow> nat
    \<Rightarrow> (error + FileTransferProtocolPayload) \<times> MavFTP" where
  "request this opc dat off =
     (case packet this opc dat off of
        Inl e \<Rightarrow> (Inl e, this)
      | Inr msg \<Rightarrow> send this msg 200 6)"


text \<open>
  The \<^verbatim>\<open>while (true)\<close> loop of \<^verbatim>\<open>listDirectory\<close>, with the array \<^verbatim>\<open>result\<close> as an
  argument. \<^verbatim>\<open>FileTransferProtocolError.EOF\<close> is 6. Every request that is answered
  consumes an outcome of the outside world, so the loop ends.
\<close>

function listDirectory_loop :: "MavFTP \<Rightarrow> string \<Rightarrow> MavFTPDirectoryListingEntry list
    \<Rightarrow> (error + MavFTPDirectoryListingEntry list) \<times> MavFTP" where
  "listDirectory_loop this folder result =
     (case request this LISTDIRECTORY (DataString folder) (length result) of
        (Inl e, this1) \<Rightarrow> (Inl e, this1)
      | (Inr response, this1) \<Rightarrow>
          (if opcode response = ACK
           then (case parse (data response) of
                   Inl e \<Rightarrow> (Inl e, this1)
                 | Inr entries \<Rightarrow> listDirectory_loop this1 folder (result @ entries))
           else if data0 response \<noteq> Some 6
           then (Inl (ProtocolError (FileTransferProtocolError_name (data0 response))), this1)
           else (Inr result, this1)))"
  by pat_completeness auto
termination
proof (relation "measure (\<lambda>(this, folder, result). length (incoming this))", goal_cases)
  case 1
  show ?case by simp
next
  case (2 this folder result x this1 response entries)
  have step: "length (incoming s1) \<le> length (incoming s)
      \<and> (\<forall>resp. r = Inr resp \<longrightarrow> length (incoming s1) < length (incoming s))"
    if "transmit s m t = (r, s1)" for s m t r s1
    using that by (auto simp add: transmit_def Let_def split: list.splits outcome.splits)
  have loop: "length (incoming s') < length (incoming s)"
    if "send_loop s m t n = (Inr resp, s')" for s m t n resp s'
    using that
    apply (induction s m t n rule: send_loop.induct)
    apply (subst (asm) (2) send_loop.simps)
    apply (auto simp del: send_loop.simps split: if_splits prod.splits sum.splits dest!: step)
    done
  from 2 have "request this LISTDIRECTORY (DataString folder) (length result) = (Inr response, this1)"
    by simp
  then have "length (incoming this1) < length (incoming this)"
    by (auto simp add: request_def send_def simp del: send_loop.simps split: sum.splits
        dest!: loop)
  then show ?case by simp
qed

definition listDirectory :: "MavFTP \<Rightarrow> string
    \<Rightarrow> (error + MavFTPDirectoryListingEntry list) \<times> MavFTP" where
  "listDirectory this folder = listDirectory_loop this folder []"

text \<open>
  \<^verbatim>\<open>openFileRO\<close>: the session is taken from the response, then the size is read with
  \<^verbatim>\<open>readUInt32LE(0)\<close> from the response data when the size field is positive.
\<close>

definition openFileRO :: "MavFTP \<Rightarrow> string
    \<Rightarrow> (error + FileTransferProtocolPayload \<times> nat) \<times> MavFTP" where
  "openFileRO this path =
     (case request this OPENFILERO (DataString path) 0 of
        (Inl e, this1) \<Rightarrow> (Inl e, this1)
      | (Inr response, this1) \<Rightarrow>
          (case handleError (Some response) of
             Inl e \<Rightarrow> (Inl e, this1)
           | Inr u \<Rightarrow>
               (let this2 = this1\<lparr>this_session := unat (session response)\<rparr>
                in if size_f response > 0
                   then (case readUInt32LE (data response) 0 of
                           Inl e \<Rightarrow> (Inl e, this2)
                         | Inr v \<Rightarrow> (Inr (response, unat v), this2))
                   else (Inr (response, 0), this2))))"

definition terminateSession :: "MavFTP \<Rightarrow> (error + FileTransferProtocolPayload) \<times> MavFTP" where
  "terminateSession this =
     (case request this TERMINATESESSION (DataBytes []) 0 of
        (Inl e, this1) \<Rightarrow> (Inl e, this1)
      | (Inr response, this1) \<Rightarrow>
          (case handleError (Some response) of
             Inl e \<Rightarrow> (Inl e, this1)
           | Inr u \<Rightarrow> (Inr response, this1\<lparr>this_session := 0\<rparr>)))"

definition reportProgress :: "MavFTP \<Rightarrow> nat \<Rightarrow> nat \<Rightarrow> MavFTP" where
  "reportProgress this off totalSize = this\<lparr>progress := progress this @ [(off, totalSize)]\<rparr>"

text \<open>The \<^verbatim>\<open>while (true)\<close> loop of \<^verbatim>\<open>readFile\<close>, with \<^verbatim>\<open>result\<close> and \<^verbatim>\<open>offset\<close>.\<close>

function readFile_loop :: "MavFTP \<Rightarrow> nat \<Rightarrow> uint8_t list \<Rightarrow> nat
    \<Rightarrow> (error + uint8_t list) \<times> MavFTP" where
  "readFile_loop this sz result off =
     (case request this READFILE (DataNumber 230) off of
        (Inl e, this1) \<Rightarrow> (Inl e, this1)
      | (Inr response, this1) \<Rightarrow>
          (if opcode response = ACK
           then readFile_loop (reportProgress this1 (off + length (data response)) sz) sz
                  (result @ data response) (off + length (data response))
           else if data0 response = Some 6
           then (Inr result, reportProgress this1 sz sz)
           else (Inl (UnableToRead (data0 response)), this1)))"
  by pat_completeness auto
termination
proof (relation "measure (\<lambda>(this, sz, result, off). length (incoming this))", goal_cases)
  case 1
  show ?case by simp
next
  case (2 this sz result off x this1 response)
  have step: "length (incoming s1) \<le> length (incoming s)
      \<and> (\<forall>resp. r = Inr resp \<longrightarrow> length (incoming s1) < length (incoming s))"
    if "transmit s m t = (r, s1)" for s m t r s1
    using that by (auto simp add: transmit_def Let_def split: list.splits outcome.splits)
  have loop: "length (incoming s') < length (incoming s)"
    if "send_loop s m t n = (Inr resp, s')" for s m t n resp s'
    using that
    apply (induction s m t n rule: send_loop.induct)
    apply (subst (asm) (2) send_loop.simps)
    apply (auto simp del: send_loop.simps split: if_splits prod.splits sum.splits dest!: step)
    done
  from 2 have "request this READFILE (DataNumber 230) off = (Inr response, this1)"
    by simp
  then have "length (incoming this1) < length (incoming this)"
    by (auto simp add: request_def send_def simp del: send_loop.simps split: sum.splits
        dest!: loop)
  then show ?case by (simp add: reportProgress_def)
qed

definition readFile :: "MavFTP \<Rightarrow> nat \<Rightarrow> (error + uint8_t list) \<times> MavFTP" where
  "readFile this sz = readFile_loop (reportProgress this 0 sz) sz [] 0"

text \<open>
  \<^verbatim>\<open>downloadFile\<close>: \<^verbatim>\<open>try { return await this.readFile(...) } finally { await
  this.terminateSession() }\<close>. The \<^verbatim>\<open>finally\<close> block runs after the \<^verbatim>\<open>try\<close> block
  whether it returned or threw; an exception of the \<^verbatim>\<open>finally\<close> block replaces the
  outcome of the \<^verbatim>\<open>try\<close> block, and when the \<^verbatim>\<open>finally\<close> block completes normally the
  outcome of the \<^verbatim>\<open>try\<close> block stands.
\<close>

definition downloadFile :: "MavFTP \<Rightarrow> string \<Rightarrow> (error + uint8_t list) \<times> MavFTP" where
  "downloadFile this filename =
     (case openFileRO this filename of
        (Inl e, this1) \<Rightarrow> (Inl e, this1)
      | (Inr (response, sz), this1) \<Rightarrow>
          (case readFile this1 sz of
             (tried, this2) \<Rightarrow>
               (case terminateSession this2 of
                  (Inl e, this3) \<Rightarrow> (Inl e, this3)
                | (Inr r, this3) \<Rightarrow> (tried, this3))))"


subsection \<open>Concrete values used in the examples\<close>

text \<open>The bytes of a string of characters, one byte per character code.\<close>

definition charCodes :: "string \<Rightarrow> uint8_t list" where
  "charCodes s = map (\<lambda>c. of_nat (of_char c)) s"

definition example_msg :: FileTransferProtocol where
  "example_msg = \<lparr>targetNetwork = 0, targetSystem = 1, targetComponent = 1,
     payload = [0, 0, 1, 2, 0, 0, 0, 0, 0, 0, 0, 0]\<rparr>"

definition example_ack :: FileTransferProtocolPayload where
  "example_ack = \<lparr>seq = 41, session = 7, opcode = ACK, size_f = 0, reqOpcode = Some 2,
     burstComplete = 0, offset = Some 0, data = []\<rparr>"

definition example_response :: "uint8_t \<Rightarrow> uint16_t \<Rightarrow> uint8_t list \<Rightarrow> FileTransferProtocolPayload" where
  "example_response opc sq d =
     \<lparr>seq = sq, session = 7, opcode = opc, size_f = of_nat (length d), reqOpcode = Some 0,
      burstComplete = 0, offset = Some 0, data = d\<rparr>"

text \<open>
  Whether the data of a response decode as a directory listing, and the entries they
  decode to (none when \<^verbatim>\<open>parse\<close> throws): used to state what \<^verbatim>\<open>listDirectory\<close> returns.
\<close>

definition decodes :: "FileTransferProtocolPayload \<Rightarrow> bool" where
  "decodes response = (case parse (data response) of Inl e \<Rightarrow> False | Inr entries \<Rightarrow> True)"

definition decoded :: "FileTransferProtocolPayload \<Rightarrow> MavFTPDirectoryListingEntry list" where
  "decoded response = (case parse (data response) of Inl e \<Rightarrow> [] | Inr entries \<Rightarrow> entries)"

definition example_page1 :: FileTransferProtocolPayload where
  "example_page1 = example_response ACK 5 (charCodes ''Dl'' @ [0, 0])"

definition example_page2 :: FileTransferProtocolPayload where
  "example_page2 = example_response ACK 6
     (charCodes ''Fm'' @ [9] @ charCodes ''12'' @ [0, 0] @ charCodes ''Dn'' @ [0, 0])"

definition example_eof :: FileTransferProtocolPayload where
  "example_eof = example_response NAK 7 [6]"

section \<open>Properties\<close>

subsection \<open>The serializer\<close>

lemma read_u16_written:
  "(ucast (ucast (v::uint16_t) :: uint8_t) :: uint16_t)
     OR push_bit 8 (ucast (ucast (drop_bit 8 v) :: uint8_t)) = v"
  by (rule bit_word_eqI) (auto simp add: bit_simps)

lemma read_u32_written:
  "(ucast (ucast (v::uint32_t) :: uint8_t) :: uint32_t)
     OR push_bit 8 (ucast (ucast (drop_bit 8 v) :: uint8_t))
     OR push_bit 16 (ucast (ucast (drop_bit 16 v) :: uint8_t))
     OR push_bit 24 (ucast (ucast (drop_bit 24 v) :: uint8_t)) = v"
proof (rule bit_word_eqI)
  fix n
  assume "n < LENGTH(32)"
  then show "bit ((ucast (ucast v :: uint8_t) :: uint32_t)
     OR push_bit 8 (ucast (ucast (drop_bit 8 v) :: uint8_t))
     OR push_bit 16 (ucast (ucast (drop_bit 16 v) :: uint8_t))
     OR push_bit 24 (ucast (ucast (drop_bit 24 v) :: uint8_t))) n = bit v n"
    by (cases "n < 8"; cases "n < 16"; cases "n < 24") (auto simp add: bit_simps)
qed

lemma read_data_in_range:
  "12 + i + n \<le> length buffer \<Longrightarrow> read_data buffer i n = Inr (take n (drop (12 + i) buffer))"
proof (induction n arbitrary: i)
  case 0
  then show ?case by simp
next
  case (Suc n)
  from Suc.prems have "12 + Suc i + n \<le> length buffer" by simp
  then have rest: "read_data buffer (Suc i) n = Inr (take n (drop (12 + Suc i) buffer))"
    by (rule Suc.IH)
  from Suc.prems have lt: "12 + i < length buffer" by simp
  then have "drop (12 + i) buffer = buffer ! (12 + i) # drop (Suc (12 + i)) buffer"
    by (simp only: Cons_nth_drop_Suc)
  then have "take (Suc n) (drop (12 + i) buffer) = buffer ! (12 + i) # take n (drop (12 + Suc i) buffer)"
    by simp
  with rest lt show ?case
    by (simp add: bind_def readUInt8_def)
qed

lemma read_data_out_of_range:
  "0 < n \<Longrightarrow> length buffer < 12 + i + n \<Longrightarrow> read_data buffer i n = Inl RangeError"
proof (induction n arbitrary: i)
  case 0
  then show ?case by simp
next
  case (Suc n)
  show ?case
  proof (cases "12 + i < length buffer")
    case False
    then show ?thesis by (simp add: bind_def readUInt8_def)
  next
    case True
    with Suc.prems have "0 < n" and "length buffer < 12 + Suc i + n" by simp_all
    then have "read_data buffer (Suc i) n = Inl RangeError" by (rule Suc.IH)
    with True show ?thesis by (simp add: bind_def readUInt8_def)
  qed
qed


lemma serialize_length: "length (serialize p) = 12 + length (data p)"
  by (simp add: serialize_def writeUInt16LE_def writeUInt32LE_def)

lemma serialize_drop: "drop 12 (serialize p) = data p"
  by (simp add: serialize_def writeUInt16LE_def writeUInt32LE_def)

lemma serialize_header:
  "readUInt8 (serialize p) 4 = Inr (size_f p)"
  "readUInt16LE (serialize p) 0 = Inr (seq p)"
  "readUInt8 (serialize p) 2 = Inr (session p)"
  "readUInt8 (serialize p) 3 = Inr (opcode p)"
  "readUInt8 (serialize p) 5 = Inr (case reqOpcode p of None \<Rightarrow> 0 | Some r \<Rightarrow> r)"
  "readUInt8 (serialize p) 6 = Inr (burstComplete p)"
  "readUInt32LE (serialize p) 8 = Inr (case offset p of None \<Rightarrow> 0 | Some off \<Rightarrow> off)"
  by (simp_all add: readUInt8_def readUInt16LE_def readUInt32LE_def serialize_length
      read_u16_written read_u32_written)
     (simp_all add: serialize_def writeUInt16LE_def writeUInt32LE_def read_u16_written read_u32_written)

text \<open>
  Claim C1. For every payload \<open>p\<close> whose \<open>size\<close> field equals the length of its data,
  with at most 251 data bytes and with \<open>reqOpcode\<close> and \<open>offset\<close> defined, deserializing
  the serialization of \<open>p\<close> gives \<open>p\<close> back.
\<close>

theorem codec_round_trip:
  assumes "unat (size_f p) = length (data p)"
    and "length (data p) \<le> 251"
    and "reqOpcode p = Some r"
    and "offset p = Some off"
  shows "deserialize (serialize p) = Inr p"
proof -
  have "read_data (serialize p) 0 (length (data p)) = Inr (data p)"
    by (simp add: read_data_in_range serialize_length serialize_drop)
  with assms show ?thesis
    by (simp add: deserialize_def serialize_header bind_def)
qed

theorem codec_round_trip_witness:
  "deserialize (serialize
     \<lparr>seq = 0x1234, session = 1, opcode = 128, size_f = 2, reqOpcode = Some 3,
      burstComplete = 0, offset = Some 0x01020304, data = [7, 9]\<rparr>)
   = Inr \<lparr>seq = 0x1234, session = 1, opcode = 128, size_f = 2, reqOpcode = Some 3,
      burstComplete = 0, offset = Some 0x01020304, data = [7, 9]\<rparr>"
  using codec_round_trip [of
     "\<lparr>seq = 0x1234, session = 1, opcode = 128, size_f = 2, reqOpcode = Some 3,
      burstComplete = 0, offset = Some 0x01020304, data = [7, 9]\<rparr>" 3 "0x01020304"]
  by simp

text \<open>
  Claim C9. A buffer shorter than 12 plus the size stored at byte 4 makes \<open>deserialize\<close>
  throw (the range error of the \<^verbatim>\<open>Buffer\<close> read, the failure the specification calls
  MalformedPayload) and no payload is returned; a buffer too short to hold byte 4 or the
  header throws as well. A buffer of at least \<open>12 + size\<close> bytes is decoded, and the data
  of the payload are exactly the \<open>size\<close> bytes that start at offset 12.
\<close>

theorem deserialize_bounds:
  "(length buffer < 12 + (if 4 < length buffer then unat (buffer ! 4) else 0)
      \<longrightarrow> deserialize buffer = Inl RangeError)
   \<and> (4 < length buffer \<and> 12 + unat (buffer ! 4) \<le> length buffer
      \<longrightarrow> (\<exists>p. deserialize buffer = Inr p
            \<and> size_f p = buffer ! 4
            \<and> length (data p) = unat (buffer ! 4)
            \<and> data p = take (unat (buffer ! 4)) (drop 12 buffer)))"
proof (intro conjI impI)
  assume short: "length buffer < 12 + (if 4 < length buffer then unat (buffer ! 4) else 0)"
  show "deserialize buffer = Inl RangeError"
  proof (cases "length buffer < 12")
    case True
    then show ?thesis
      by (simp add: deserialize_def bind_def readUInt8_def readUInt16LE_def readUInt32LE_def)
  next
    case False
    with short have "0 < unat (buffer ! 4)" and "length buffer < 12 + 0 + unat (buffer ! 4)"
      by (simp_all split: if_splits)
    then have "read_data buffer 0 (unat (buffer ! 4)) = Inl RangeError"
      by (rule read_data_out_of_range)
    with False show ?thesis
      by (simp add: deserialize_def bind_def readUInt8_def readUInt16LE_def readUInt32LE_def)
  qed
next
  assume long: "4 < length buffer \<and> 12 + unat (buffer ! 4) \<le> length buffer"
  then have "read_data buffer 0 (unat (buffer ! 4)) = Inr (take (unat (buffer ! 4)) (drop 12 buffer))"
    by (simp add: read_data_in_range)
  with long show "\<exists>p. deserialize buffer = Inr p
            \<and> size_f p = buffer ! 4
            \<and> length (data p) = unat (buffer ! 4)
            \<and> data p = take (unat (buffer ! 4)) (drop 12 buffer)"
    by (auto simp add: deserialize_def bind_def readUInt8_def readUInt16LE_def readUInt32LE_def)
qed

theorem deserialize_bounds_witness:
  "deserialize [0, 0, 0, 0, 3, 0, 0, 0, 0, 0, 0, 0, 65, 66] = Inl RangeError
   \<and> (\<exists>p. deserialize [0, 0, 0, 0, 2, 0, 0, 0, 0, 0, 0, 0, 65, 66, 67] = Inr p
          \<and> size_f p = 2 \<and> length (data p) = 2 \<and> data p = [65, 66])"
  using deserialize_bounds [of "[0, 0, 0, 0, 3, 0, 0, 0, 0, 0, 0, 0, 65, 66]"]
    deserialize_bounds [of "[0, 0, 0, 0, 2, 0, 0, 0, 0, 0, 0, 0, 65, 66, 67]"]
  by simp

subsection \<open>The directory listing parser\<close>

lemmas parse_eval = parse_def empty_entry_def fromCharCode_def char_of_def bit_Suc_0_iff
  parseInt_def isDigit_def digitValue_def isStrWhiteSpaceChar_def charCodes_def

text \<open>
  Claim C2, as stated, does not hold: on the listing \<open>F file.txt TAB 1234 NUL D logs NUL\<close>
  the parser throws. After the \<open>NUL\<close> of the first record the state is \<^verbatim>\<open>STORE\<close>, and the
  iteration that stores the entry consumes the next byte, \<open>D\<close>; the byte \<open>l\<close> (108) is
  then read in the state \<^verbatim>\<open>TYPE\<close>.
\<close>

theorem listing_single_nul_rejected:
  "parse (charCodes ''Ffile.txt'' @ [9] @ charCodes ''1234'' @ [0] @ charCodes ''Dlogs'' @ [0])
     = Inl (UnknownEntryType 108)
   \<and> parse (charCodes ''Ffile.txt'' @ [9] @ charCodes ''1234'' @ [0] @ charCodes ''Dlogs'' @ [0])
     \<noteq> Inr [\<lparr>entry_type = ''file'', entry_name = ''file.txt'', entry_size = Some (Num 1234)\<rparr>,
            \<lparr>entry_type = ''directory'', entry_name = ''logs'', entry_size = None\<rparr>]"
  by (simp add: parse_eval)

text \<open>
  Claim C2, amended. When the \<open>NUL\<close> that ends each record is followed by one more byte
  (of any value), the listing \<open>F file.txt TAB 1234 NUL b D logs NUL b'\<close> is parsed into
  exactly the two entries, in that order: the file \<open>file.txt\<close> of size 1234 and the
  directory \<open>logs\<close> with size \<^verbatim>\<open>null\<close>.
\<close>

theorem listing_two_entries:
  "parse (charCodes ''Ffile.txt'' @ [9] @ charCodes ''1234'' @ [0, pad1]
          @ charCodes ''Dlogs'' @ [0, pad2])
     = Inr [\<lparr>entry_type = ''file'', entry_name = ''file.txt'', entry_size = Some (Num 1234)\<rparr>,
            \<lparr>entry_type = ''directory'', entry_name = ''logs'', entry_size = None\<rparr>]"
  by (simp add: parse_eval)

subsection \<open>The retrying exchange\<close>

lemma send_loop_unfold:
  "send_loop this msg timeout retry =
     (if retry > 0
      then (case transmit this msg timeout of
              (Inr response, this') \<Rightarrow>
                (Inr response, this'\<lparr>this_sequence := unat (seq response)\<rparr>)
            | (Inl e, this') \<Rightarrow>
                (if retry - 1 > 0 then send_loop this' msg timeout (retry - 1)
                 else (Inl (SendingFailed e), this')))
      else (Inl DidNotExpectToLandHere, this))"
  by (rule send_loop.simps)

declare send_loop.simps [simp del]

lemma send_loop_adopts:
  "send_loop this msg timeout retry = (Inr response, this')
   \<Longrightarrow> this_sequence this' = unat (seq response)"
proof (induction this msg timeout retry rule: send_loop.induct)
  case (1 this msg timeout retry)
  from "1.prems" have pos: "retry > 0"
    by (subst (asm) send_loop_unfold) (simp split: if_splits)
  obtain r this1 where tr: "transmit this msg timeout = (r, this1)"
    by (cases "transmit this msg timeout")
  show ?case
  proof (cases r)
    case (Inr resp)
    with pos tr "1.prems" show ?thesis
      by (subst (asm) send_loop_unfold) auto
  next
    case (Inl e)
    with pos tr "1.prems" have more: "retry - 1 > 0"
      and rec: "send_loop this1 msg timeout (retry - 1) = (Inr response, this')"
      by (subst (asm) send_loop_unfold, simp split: if_splits)+
    from "1.IH" [OF pos tr [symmetric] Inl more rec] show ?thesis .
  qed
qed

text \<open>
  Claim C6. After every \<^verbatim>\<open>send\<close> that returns a response, the stored sequence number
  is the \<^verbatim>\<open>seq\<close> of that response, whatever the sequence was before and whatever the
  message carried. \<^verbatim>\<open>_transform\<close> stores the \<^verbatim>\<open>seq\<close> of every payload it decodes in the
  same way.
\<close>

theorem sequence_adoption:
  "(send this msg timeout retry = (Inr response, this')
      \<longrightarrow> this_sequence this' = unat (seq response))
   \<and> (transform that 110 ftp_payload = Inr (Some p, that')
      \<longrightarrow> this_sequence that' = unat (seq p))"
  by (auto simp add: send_def transform_def bind_def dest: send_loop_adopts split: sum.splits)

theorem sequence_adoption_witness:
  "send (constructor [Timeout, Response example_ack]) example_msg 200 6
     = (Inr example_ack,
        \<lparr>this_session = 1, this_sequence = 41, this_port = [example_msg, example_msg],
         incoming = [], progress = []\<rparr>)
   \<and> this_sequence \<lparr>this_session = 1, this_sequence = 41, this_port = [example_msg, example_msg],
         incoming = [], progress = []\<rparr> = unat (seq example_ack)
   \<and> transform (constructor []) 110 [41, 0, 7, 128, 0, 2, 0, 0, 0, 0, 0, 0]
     = Inr (Some example_ack, \<lparr>this_session = 1, this_sequence = 41, this_port = [],
         incoming = [], progress = []\<rparr>)"
proof -
  have s: "send (constructor [Timeout, Response example_ack]) example_msg 200 6
     = (Inr example_ack,
        \<lparr>this_session = 1, this_sequence = 41, this_port = [example_msg, example_msg],
         incoming = [], progress = []\<rparr>)"
    by (simp add: send_def constructor_def send_loop_unfold transmit_def example_ack_def)
  have t: "transform (constructor []) 110 [41, 0, 7, 128, 0, 2, 0, 0, 0, 0, 0, 0]
     = Inr (Some example_ack, \<lparr>this_session = 1, this_sequence = 41, this_port = [],
         incoming = [], progress = []\<rparr>)"
    by (simp add: transform_def constructor_def deserialize_def bind_def readUInt8_def
        readUInt16LE_def readUInt32LE_def example_ack_def ACK_def)
  from s t sequence_adoption [of "constructor [Timeout, Response example_ack]" example_msg 200 6
      example_ack "\<lparr>this_session = 1, this_sequence = 41, this_port = [example_msg, example_msg],
         incoming = [], progress = []\<rparr>" "constructor []" "[41, 0, 7, 128, 0, 2, 0, 0, 0, 0, 0, 0]"
      example_ack "\<lparr>this_session = 1, this_sequence = 41, this_port = [],
         incoming = [], progress = []\<rparr>"]
  show ?thesis by simp
qed

lemma transmit_timeout:
  "incoming this = [] \<or> hd (incoming this) = Timeout \<Longrightarrow>
   transmit this msg timeout
     = (Inl TimedOut, this\<lparr>this_port := this_port this @ [msg], incoming := tl (incoming this)\<rparr>)"
  by (cases "incoming this") (auto simp add: transmit_def)

lemma send_loop_all_timeouts:
  "\<forall>ev \<in> set (take (Suc n) (incoming this)). ev = Timeout \<Longrightarrow>
   send_loop this msg timeout (int (Suc n))
     = (Inl (SendingFailed TimedOut),
        this\<lparr>this_port := this_port this @ replicate (Suc n) msg,
             incoming := drop (Suc n) (incoming this)\<rparr>)"
proof (induction n arbitrary: this)
  case 0
  then have "incoming this = [] \<or> hd (incoming this) = Timeout"
    by (cases "incoming this") auto
  then show ?case
    by (subst send_loop_unfold) (simp add: transmit_timeout drop_Suc)
next
  case (Suc n)
  let ?this1 = "this\<lparr>this_port := this_port this @ [msg], incoming := tl (incoming this)\<rparr>"
  from Suc.prems have first: "incoming this = [] \<or> hd (incoming this) = Timeout"
    by (cases "incoming this") auto
  from Suc.prems have "\<forall>ev \<in> set (take (Suc n) (incoming ?this1)). ev = Timeout"
    by (cases "incoming this") auto
  then have "send_loop ?this1 msg timeout (int (Suc n))
     = (Inl (SendingFailed TimedOut),
        ?this1\<lparr>this_port := this_port ?this1 @ replicate (Suc n) msg,
             incoming := drop (Suc n) (incoming ?this1)\<rparr>)"
    by (rule Suc.IH)
  then show ?case
    by (subst send_loop_unfold)
       (simp add: transmit_timeout [OF first] drop_Suc replicate_append_same)
qed

text \<open>
  Claim C4. For every timeout and every retry budget \<open>maxRetries \<ge> 1\<close>: when each of the
  attempts of a \<^verbatim>\<open>send\<close> times out, the \<^verbatim>\<open>send\<close> throws the error "Sending MavFTP
  message failed" (the failure the specification calls ExchangeFailed), the port has been
  handed exactly \<open>maxRetries\<close> copies of the same message, and the sequence number has been
  advanced once, before the first attempt.
\<close>

theorem retry_exhaustion:
  assumes "1 \<le> maxRetries"
    and "\<forall>ev \<in> set (take (nat maxRetries) (incoming this)). ev = Timeout"
  shows "send this msg timeout maxRetries
     = (Inl (SendingFailed TimedOut),
        this\<lparr>this_sequence := this_sequence this + 1,
             this_port := this_port this @ replicate (nat maxRetries) msg,
             incoming := drop (nat maxRetries) (incoming this)\<rparr>)"
proof -
  define n where "n = nat maxRetries - 1"
  with assms(1) have n: "nat maxRetries = Suc n" and m: "maxRetries = int (Suc n)"
    by simp_all
  from assms(2) have "\<forall>ev \<in> set (take (Suc n)
      (incoming (this\<lparr>this_sequence := this_sequence this + 1\<rparr>))). ev = Timeout"
    by (simp only: n) simp
  then have "send_loop (this\<lparr>this_sequence := this_sequence this + 1\<rparr>) msg timeout (int (Suc n))
     = (Inl (SendingFailed TimedOut),
        this\<lparr>this_sequence := this_sequence this + 1,
             this_port := this_port this @ replicate (Suc n) msg,
             incoming := drop (Suc n) (incoming this)\<rparr>)"
    by (subst send_loop_all_timeouts) simp_all
  then show ?thesis
    by (simp only: send_def m nat_int)
qed

theorem retry_exhaustion_witness:
  "send (constructor [Timeout, Timeout, Timeout, Response example_ack]) example_msg 200 3
     = (Inl (SendingFailed TimedOut),
        \<lparr>this_session = 1, this_sequence = 1,
         this_port = [example_msg, example_msg, example_msg],
         incoming = [Response example_ack], progress = []\<rparr>)"
  using retry_exhaustion [of 3 "constructor [Timeout, Timeout, Timeout, Response example_ack]"
      example_msg 200]
  by (simp add: constructor_def numeral_3_eq_3)

subsection \<open>Requests of the operations\<close>

declare listDirectory_loop.simps [simp del] readFile_loop.simps [simp del]

lemma listDirectory_loop_unfold:
  "listDirectory_loop this folder result =
     (case request this LISTDIRECTORY (DataString folder) (length result) of
        (Inl e, this1) \<Rightarrow> (Inl e, this1)
      | (Inr response, this1) \<Rightarrow>
          (if opcode response = ACK
           then (case parse (data response) of
                   Inl e \<Rightarrow> (Inl e, this1)
                 | Inr entries \<Rightarrow> listDirectory_loop this1 folder (result @ entries))
           else if data0 response \<noteq> Some 6
           then (Inl (ProtocolError (FileTransferProtocolError_name (data0 response))), this1)
           else (Inr result, this1)))"
  by (rule listDirectory_loop.simps)

lemma readFile_loop_unfold:
  "readFile_loop this sz result off =
     (case request this READFILE (DataNumber 230) off of
        (Inl e, this1) \<Rightarrow> (Inl e, this1)
      | (Inr response, this1) \<Rightarrow>
          (if opcode response = ACK
           then readFile_loop (reportProgress this1 (off + length (data response)) sz) sz
                  (result @ data response) (off + length (data response))
           else if data0 response = Some 6
           then (Inr result, reportProgress this1 sz sz)
           else (Inl (UnableToRead (data0 response)), this1)))"
  by (rule readFile_loop.simps)

lemma transmit_keeps:
  "transmit this msg timeout = (r, this') \<Longrightarrow>
     this_session this' = this_session this \<and> progress this' = progress this
     \<and> this_sequence this' = this_sequence this"
  by (auto simp add: transmit_def Let_def split: list.splits outcome.splits)

lemma send_loop_keeps:
  "send_loop this msg timeout retry = (r, this') \<Longrightarrow>
     this_session this' = this_session this \<and> progress this' = progress this"
proof (induction this msg timeout retry arbitrary: r this' rule: send_loop.induct)
  case (1 this msg timeout retry)
  show ?case
  proof (cases "retry > 0")
    case False
    with "1.prems" show ?thesis by (subst (asm) send_loop_unfold) simp
  next
    case True
    obtain a this1 where tr: "transmit this msg timeout = (a, this1)"
      by (cases "transmit this msg timeout")
    note keep = transmit_keeps [OF tr]
    show ?thesis
    proof (cases a)
      case (Inr resp)
      with True tr "1.prems" keep show ?thesis
        by (subst (asm) send_loop_unfold) auto
    next
      case (Inl e)
      show ?thesis
      proof (cases "retry - 1 > 0")
        case False
        with True tr Inl "1.prems" keep show ?thesis
          by (subst (asm) send_loop_unfold) auto
      next
        case more: True
        with True tr Inl "1.prems" have "send_loop this1 msg timeout (retry - 1) = (r, this')"
          by (subst (asm) send_loop_unfold) simp
        from "1.IH" [OF True tr [symmetric] Inl more this] keep show ?thesis by simp
      qed
    qed
  qed
qed

lemma request_keeps:
  "request this opc dat off = (r, this') \<Longrightarrow>
     this_session this' = this_session this \<and> progress this' = progress this"
  by (auto simp add: request_def send_def split: sum.splits dest!: send_loop_keeps)

lemma request_answered:
  assumes "packet this opc dat off = Inr msg"
    and "incoming this = Response response # evs"
  shows "request this opc dat off
     = (Inr response,
        this\<lparr>this_sequence := unat (seq response),
             this_port := this_port this @ [msg],
             incoming := evs\<rparr>)"
  using assms by (simp add: request_def send_def send_loop_unfold transmit_def)

lemma request_unanswered:
  assumes "packet this opc dat off = Inr msg"
    and "incoming this = []"
  shows "request this opc dat off
     = (Inl (SendingFailed TimedOut),
        this\<lparr>this_sequence := this_sequence this + 1,
             this_port := this_port this @ replicate 6 msg\<rparr>)"
proof -
  have "send_loop (this\<lparr>this_sequence := this_sequence this + 1\<rparr>) msg 200 (int (Suc 5))
     = (Inl (SendingFailed TimedOut),
        this\<lparr>this_sequence := this_sequence this + 1,
             this_port := this_port this @ replicate (Suc 5) msg,
             incoming := drop (Suc 5) (incoming this)\<rparr>)"
    using assms(2) by (subst send_loop_all_timeouts) simp_all
  with assms show ?thesis
    by (simp add: request_def send_def eval_nat_numeral)
qed

lemmas packet_eval = packet_def serialize_def writeUInt16LE_def writeUInt32LE_def encode_def
  constructor_def example_response_def
  TERMINATESESSION_def RESETSESSION_def LISTDIRECTORY_def OPENFILERO_def READFILE_def
  REMOVEFILE_def ACK_def NAK_def

lemmas request_eval = request_def send_def send_loop_unfold transmit_def handleError_def
  data0_def FileTransferProtocolError_name_def reportProgress_def

subsection \<open>Error mapping\<close>




subsection \<open>The session id\<close>



subsection \<open>The size reported by openFileRO\<close>

lemma le32_value:
  fixes b0 b1 b2 b3 :: uint8_t
  shows "unat ((ucast b0 :: uint32_t) OR push_bit 8 (ucast b1) OR push_bit 16 (ucast b2)
               OR push_bit 24 (ucast b3))
         = unat b0 + 256 * unat b1 + 65536 * unat b2 + 16777216 * unat b3"
proof -
  let ?N = "unat b0 + 256 * unat b1 + 65536 * unat b2 + 16777216 * unat b3"
  have lt: "unat b < 256" for b :: uint8_t
    using unsigned_less [of b, where ?'a = nat] by simp
  have d23: "push_bit 16 (ucast b2 :: uint32_t) AND push_bit 24 (ucast b3) = 0"
    by (rule bit_word_eqI) (auto simp add: bit_simps dest: bit_imp_le_length)
  have d1: "push_bit 8 (ucast b1 :: uint32_t)
      AND (push_bit 16 (ucast b2) OR push_bit 24 (ucast b3)) = 0"
    by (rule bit_word_eqI) (auto simp add: bit_simps dest: bit_imp_le_length)
  have d0: "(ucast b0 :: uint32_t)
      AND (push_bit 8 (ucast b1) OR push_bit 16 (ucast b2) OR push_bit 24 (ucast b3)) = 0"
    by (rule bit_word_eqI) (auto simp add: bit_simps dest: bit_imp_le_length)
  have "(ucast b0 :: uint32_t) OR push_bit 8 (ucast b1) OR push_bit 16 (ucast b2)
               OR push_bit 24 (ucast b3)
      = ucast b0 + (push_bit 8 (ucast b1) + (push_bit 16 (ucast b2) + push_bit 24 (ucast b3)))"
    by (simp only: disjunctive_add_eq_or [OF d23] disjunctive_add_eq_or [OF d1]
        disjunctive_add_eq_or [OF d0])
  also have "\<dots> = word_of_nat ?N"
    by (simp add: push_bit_eq_mult)
  finally have "unat ((ucast b0 :: uint32_t) OR push_bit 8 (ucast b1) OR push_bit 16 (ucast b2)
               OR push_bit 24 (ucast b3)) = ?N mod 2 ^ 32"
    by (simp only: unat_of_nat) simp
  moreover have "?N < 2 ^ 32"
    using lt [of b0] lt [of b1] lt [of b2] lt [of b3] by simp
  ultimately show ?thesis by simp
qed

lemma readUInt32LE_0:
  "readUInt32LE buffer 0
     = (if 4 \<le> length buffer
        then Inr (ucast (buffer ! 0) OR push_bit 8 (ucast (buffer ! 1))
                  OR push_bit 16 (ucast (buffer ! 2)) OR push_bit 24 (ucast (buffer ! 3)))
        else Inl RangeError)"
  by (simp add: readUInt32LE_def numeral_2_eq_2)

text \<open>
  Claim C10. In \<^verbatim>\<open>openFileRO\<close>, for an ACK response: when the size field is 0 the file
  size reported is 0, whatever the data are; when the size field is not 0 the file size
  is the little-endian 32-bit number in the first four data bytes, provided the response
  has at least four data bytes; with fewer data bytes the read is out of range and
  \<^verbatim>\<open>openFileRO\<close> throws the range error.
\<close>

theorem openFileRO_size:
  assumes "packet this OPENFILERO (DataString path) 0 = Inr msg"
    and "incoming this = Response response # evs"
    and "opcode response = ACK"
  shows "fst (openFileRO this path)
     = (if size_f response = 0 then Inr (response, 0)
        else if 4 \<le> length (data response)
        then Inr (response,
               unat (data response ! 0) + 256 * unat (data response ! 1)
               + 65536 * unat (data response ! 2) + 16777216 * unat (data response ! 3))
        else Inl RangeError)"
  using assms
  by (simp add: openFileRO_def request_answered handleError_def ACK_def NAK_def
      readUInt32LE_0 le32_value word_greater_zero_iff)

theorem openFileRO_size_witness:
  "fst (openFileRO (constructor [Response (example_response ACK 5 [])]) ''a'')
     = Inr (example_response ACK 5 [], 0)
   \<and> fst (openFileRO (constructor [Response (example_response ACK 5 [3, 1, 0, 0])]) ''a'')
     = Inr (example_response ACK 5 [3, 1, 0, 0], 259)
   \<and> fst (openFileRO (constructor [Response (example_response ACK 5 [3, 1])]) ''a'')
     = Inl RangeError"
  using openFileRO_size [of "constructor [Response (example_response ACK 5 [])]" "''a''"
      "\<lparr>targetNetwork = 0, targetSystem = 1, targetComponent = 1,
        payload = [0, 0, 1, 4, 1, 0, 0, 0, 0, 0, 0, 0, 97]\<rparr>" "example_response ACK 5 []" "[]"]
    openFileRO_size [of "constructor [Response (example_response ACK 5 [3, 1, 0, 0])]" "''a''"
      "\<lparr>targetNetwork = 0, targetSystem = 1, targetComponent = 1,
        payload = [0, 0, 1, 4, 1, 0, 0, 0, 0, 0, 0, 0, 97]\<rparr>"
      "example_response ACK 5 [3, 1, 0, 0]" "[]"]
    openFileRO_size [of "constructor [Response (example_response ACK 5 [3, 1])]" "''a''"
      "\<lparr>targetNetwork = 0, targetSystem = 1, targetComponent = 1,
        payload = [0, 0, 1, 4, 1, 0, 0, 0, 0, 0, 0, 0, 97]\<rparr>"
      "example_response ACK 5 [3, 1]" "[]"]
  by (simp add: packet_eval)

subsection \<open>downloadFile\<close>

lemma readFile_loop_session:
  "readFile_loop this sz result off = (r, this') \<Longrightarrow> this_session this' = this_session this"
proof (induction this sz result off arbitrary: r this' rule: readFile_loop.induct)
  case (1 this sz result off)
  obtain x this1 where rq: "request this READFILE (DataNumber 230) off = (x, this1)"
    by (cases "request this READFILE (DataNumber 230) off")
  note keep = request_keeps [OF rq]
  show ?case
  proof (cases x)
    case (Inl e)
    with rq "1.prems" keep show ?thesis
      by (subst (asm) readFile_loop_unfold) simp
  next
    case (Inr response)
    show ?thesis
    proof (cases "opcode response = ACK")
      case False
      with rq Inr "1.prems" keep show ?thesis
        by (subst (asm) readFile_loop_unfold) (auto simp add: reportProgress_def split: if_splits)
    next
      case True
      with rq Inr "1.prems"
      have "readFile_loop (reportProgress this1 (off + length (data response)) sz) sz
              (result @ data response) (off + length (data response)) = (r, this')"
        by (subst (asm) readFile_loop_unfold) simp
      from "1.IH" [OF rq [symmetric] Inr True this] keep show ?thesis
        by (simp add: reportProgress_def)
    qed
  qed
qed

lemma send_loop_port:
  "send_loop this msg timeout retry = (r, this') \<Longrightarrow> 0 < retry \<Longrightarrow>
     \<exists>k. 0 < k \<and> this_port this' = this_port this @ replicate k msg"
proof (induction this msg timeout retry arbitrary: r this' rule: send_loop.induct)
  case (1 this msg timeout retry)
  obtain a this1 where tr: "transmit this msg timeout = (a, this1)"
    by (cases "transmit this msg timeout")
  then have port1: "this_port this1 = this_port this @ [msg]"
    by (auto simp add: transmit_def Let_def split: list.splits outcome.splits)
  have one: "this_port this @ [msg] = this_port this @ replicate 1 msg"
    by simp
  show ?case
  proof (cases a)
    case (Inr resp)
    with tr "1.prems" have "this_port this' = this_port this1"
      by (subst (asm) send_loop_unfold) auto
    with port1 one show ?thesis by (metis zero_less_one)
  next
    case (Inl e)
    show ?thesis
    proof (cases "retry - 1 > 0")
      case False
      with tr Inl "1.prems" have "this_port this' = this_port this1"
        by (subst (asm) send_loop_unfold) auto
      with port1 one show ?thesis by (metis zero_less_one)
    next
      case True
      with tr Inl "1.prems" have rec: "send_loop this1 msg timeout (retry - 1) = (r, this')"
        by (subst (asm) send_loop_unfold) simp
      from "1.IH" [OF "1.prems"(2) tr [symmetric] Inl True rec True]
      obtain k where "this_port this' = this_port this1 @ replicate k msg" by blast
      with port1 have "this_port this' = this_port this @ replicate (Suc k) msg"
        by (simp add: replicate_append_same)
      then show ?thesis by blast
    qed
  qed
qed

text \<open>
  Claim C3, as stated, does not hold: when the read step and the terminate step both
  throw, \<^verbatim>\<open>downloadFile\<close> throws the error of the terminate step. Here the file is opened,
  the read request is answered by a NAK with code 1, so \<^verbatim>\<open>readFile\<close> throws "Unable to
  read contents of file: 1", and nothing answers the terminate request, so
  \<^verbatim>\<open>terminateSession\<close> in the \<^verbatim>\<open>finally\<close> block throws "Sending MavFTP message failed"
  after its six attempts; that second error is the one \<^verbatim>\<open>downloadFile\<close> throws.
\<close>

theorem terminate_error_replaces_read_error:
  "fst (openFileRO (constructor [Response (example_response ACK 5 [3, 0, 0, 0]),
                                 Response (example_response NAK 6 [1])]) ''a'')
     = Inr (example_response ACK 5 [3, 0, 0, 0], 3)
   \<and> fst (readFile (snd (openFileRO (constructor [Response (example_response ACK 5 [3, 0, 0, 0]),
                                 Response (example_response NAK 6 [1])]) ''a'')) 3)
     = Inl (UnableToRead (Some 1))
   \<and> fst (terminateSession (snd (readFile (snd (openFileRO (constructor
          [Response (example_response ACK 5 [3, 0, 0, 0]),
           Response (example_response NAK 6 [1])]) ''a'')) 3)))
     = Inl (SendingFailed TimedOut)
   \<and> fst (downloadFile (constructor [Response (example_response ACK 5 [3, 0, 0, 0]),
                                 Response (example_response NAK 6 [1])]) ''a'')
     = Inl (SendingFailed TimedOut)
   \<and> fst (downloadFile (constructor [Response (example_response ACK 5 [3, 0, 0, 0]),
                                 Response (example_response NAK 6 [1])]) ''a'')
     \<noteq> Inl (UnableToRead (Some 1))"
proof -
  let ?C = "constructor [Response (example_response ACK 5 [3, 0, 0, 0]),
                         Response (example_response NAK 6 [1])]"
  let ?S1 = "\<lparr>this_session = 7, this_sequence = 5,
      this_port = [\<lparr>targetNetwork = 0, targetSystem = 1, targetComponent = 1,
           payload = [0, 0, 1, 4, 1, 0, 0, 0, 0, 0, 0, 0, 97]\<rparr>],
      incoming = [Response (example_response NAK 6 [1])], progress = []\<rparr>"
  have o: "openFileRO ?C ''a'' = (Inr (example_response ACK 5 [3, 0, 0, 0], 3), ?S1)"
    by (simp add: openFileRO_def request_eval packet_eval readUInt32LE_0)
  let ?S2 = "\<lparr>this_session = 7, this_sequence = 6,
      this_port = [\<lparr>targetNetwork = 0, targetSystem = 1, targetComponent = 1,
           payload = [0, 0, 1, 4, 1, 0, 0, 0, 0, 0, 0, 0, 97]\<rparr>,
         \<lparr>targetNetwork = 0, targetSystem = 1, targetComponent = 1,
           payload = [5, 0, 7, 5, 230, 0, 0, 0, 0, 0, 0, 0]\<rparr>],
      incoming = [], progress = [(0, 3)]\<rparr>"
  have r: "readFile ?S1 3 = (Inl (UnableToRead (Some 1)), ?S2)"
    by (simp add: readFile_def reportProgress_def)
       (subst readFile_loop_unfold, simp add: request_eval packet_eval)
  let ?T = "\<lparr>targetNetwork = 0, targetSystem = 1, targetComponent = 1,
           payload = [6, 0, 7, 1, 0, 0, 0, 0, 0, 0, 0, 0]\<rparr>"
  let ?S3 = "\<lparr>this_session = 7, this_sequence = 7,
      this_port = [\<lparr>targetNetwork = 0, targetSystem = 1, targetComponent = 1,
           payload = [0, 0, 1, 4, 1, 0, 0, 0, 0, 0, 0, 0, 97]\<rparr>,
         \<lparr>targetNetwork = 0, targetSystem = 1, targetComponent = 1,
           payload = [5, 0, 7, 5, 230, 0, 0, 0, 0, 0, 0, 0]\<rparr>,
         ?T, ?T, ?T, ?T, ?T, ?T],
      incoming = [], progress = [(0, 3)]\<rparr>"
  have t: "terminateSession ?S2 = (Inl (SendingFailed TimedOut), ?S3)"
    by (simp add: terminateSession_def request_eval packet_eval)
  have d: "downloadFile ?C ''a'' = (Inl (SendingFailed TimedOut), ?S3)"
    by (simp only: downloadFile_def o r t prod.case sum.case)
  show ?thesis
    by (simp only: o r t d fst_conv snd_conv) simp
qed

text \<open>
  Claim C3, amended. After an \<^verbatim>\<open>openFileRO\<close> that returned, \<^verbatim>\<open>downloadFile\<close> runs
  \<^verbatim>\<open>readFile\<close> and then always \<^verbatim>\<open>terminateSession\<close>, whether the read step returned or
  threw: its final state is the one \<^verbatim>\<open>terminateSession\<close> leaves. When
  \<^verbatim>\<open>terminateSession\<close> returns, the outcome of \<^verbatim>\<open>downloadFile\<close> is the outcome of the
  read step, so an error of the read step is the error surfaced; when
  \<^verbatim>\<open>terminateSession\<close> throws, its error is the one surfaced, also when the read step
  threw. As long as the sequence number after the read step fits in 16 bits, the
  terminate-session request is built and handed to the port at least once.
\<close>

theorem download_session_hygiene:
  assumes "openFileRO this filename = (Inr (response, sz), this1)"
    and "readFile this1 sz = (tried, this2)"
    and "terminateSession this2 = (released, this3)"
  shows "snd (downloadFile this filename) = this3
     \<and> fst (downloadFile this filename) = (case released of Inl e \<Rightarrow> Inl e | Inr r \<Rightarrow> tried)
     \<and> (this_sequence this2 < 2 ^ 16 \<longrightarrow>
          (\<exists>msg k. packet this2 TERMINATESESSION (DataBytes []) 0 = Inr msg \<and> 0 < k
             \<and> this_port this3 = this_port this2 @ replicate k msg))"
proof (intro conjI impI)
  from assms show "snd (downloadFile this filename) = this3"
    by (simp add: downloadFile_def split: sum.splits)
  from assms show "fst (downloadFile this filename)
      = (case released of Inl e \<Rightarrow> Inl e | Inr r \<Rightarrow> tried)"
    by (simp add: downloadFile_def split: sum.splits)
next
  assume fits: "this_sequence this2 < 2 ^ 16"
  from assms(1) have "this_session this1 = unat (session response)"
    by (auto simp add: openFileRO_def Let_def split: prod.splits sum.splits if_splits)
  moreover from assms(2) have "this_session this2 = this_session this1"
    by (auto simp add: readFile_def reportProgress_def dest: readFile_loop_session)
  moreover have "unat (session response) < 2 ^ 8"
    using unsigned_less [of "session response", where ?'a = nat] by simp
  ultimately have "this_session this2 < 2 ^ 8" by simp
  with fits obtain msg where msg: "packet this2 TERMINATESESSION (DataBytes []) 0 = Inr msg"
    by (simp add: packet_def)
  obtain a s where sl: "send_loop (this2\<lparr>this_sequence := this_sequence this2 + 1\<rparr>) msg 200 6 = (a, s)"
    by (cases "send_loop (this2\<lparr>this_sequence := this_sequence this2 + 1\<rparr>) msg 200 6")
  from send_loop_port [OF sl] obtain k where k: "0 < k"
    and port: "this_port s = this_port this2 @ replicate k msg"
    by auto
  from assms(3) msg sl have "this_port this3 = this_port s"
    by (auto simp add: terminateSession_def request_def send_def split: sum.splits)
  with msg k port
  show "\<exists>msg k. packet this2 TERMINATESESSION (DataBytes []) 0 = Inr msg \<and> 0 < k
             \<and> this_port this3 = this_port this2 @ replicate k msg"
    by auto
qed

theorem download_session_hygiene_witness:
  "downloadFile (constructor [Response (example_response ACK 5 [3, 0, 0, 0]),
                              Response (example_response NAK 6 [1]),
                              Response (example_response ACK 7 [])]) ''a''
     = (Inl (UnableToRead (Some 1)),
        \<lparr>this_session = 0, this_sequence = 7,
         this_port = [\<lparr>targetNetwork = 0, targetSystem = 1, targetComponent = 1,
              payload = [0, 0, 1, 4, 1, 0, 0, 0, 0, 0, 0, 0, 97]\<rparr>,
            \<lparr>targetNetwork = 0, targetSystem = 1, targetComponent = 1,
              payload = [5, 0, 7, 5, 230, 0, 0, 0, 0, 0, 0, 0]\<rparr>,
            \<lparr>targetNetwork = 0, targetSystem = 1, targetComponent = 1,
              payload = [6, 0, 7, 1, 0, 0, 0, 0, 0, 0, 0, 0]\<rparr>],
         incoming = [], progress = [(0, 3)]\<rparr>)"
proof -
  let ?C = "constructor [Response (example_response ACK 5 [3, 0, 0, 0]),
                         Response (example_response NAK 6 [1]),
                         Response (example_response ACK 7 [])]"
  let ?O = "\<lparr>targetNetwork = 0, targetSystem = 1, targetComponent = 1,
              payload = [0, 0, 1, 4, 1, 0, 0, 0, 0, 0, 0, 0, 97]\<rparr>"
  let ?R = "\<lparr>targetNetwork = 0, targetSystem = 1, targetComponent = 1,
              payload = [5, 0, 7, 5, 230, 0, 0, 0, 0, 0, 0, 0]\<rparr>"
  let ?T = "\<lparr>targetNetwork = 0, targetSystem = 1, targetComponent = 1,
              payload = [6, 0, 7, 1, 0, 0, 0, 0, 0, 0, 0, 0]\<rparr>"
  let ?S1 = "\<lparr>this_session = 7, this_sequence = 5, this_port = [?O],
      incoming = [Response (example_response NAK 6 [1]), Response (example_response ACK 7 [])],
      progress = []\<rparr>"
  let ?S2 = "\<lparr>this_session = 7, this_sequence = 6, this_port = [?O, ?R],
      incoming = [Response (example_response ACK 7 [])], progress = [(0, 3)]\<rparr>"
  let ?S3 = "\<lparr>this_session = 0, this_sequence = 7, this_port = [?O, ?R, ?T],
      incoming = [], progress = [(0, 3)]\<rparr>"
  have o: "openFileRO ?C ''a'' = (Inr (example_response ACK 5 [3, 0, 0, 0], 3), ?S1)"
    by (simp add: openFileRO_def request_eval packet_eval readUInt32LE_0)
  have r: "readFile ?S1 3 = (Inl (UnableToRead (Some 1)), ?S2)"
    by (simp add: readFile_def reportProgress_def)
       (subst readFile_loop_unfold, simp add: request_eval packet_eval)
  have t: "terminateSession ?S2 = (Inr (example_response ACK 7 []), ?S3)"
    by (simp add: terminateSession_def request_eval packet_eval)
  note H = download_session_hygiene [OF o r t]
  from H [THEN conjunct1] H [THEN conjunct2, THEN conjunct1]
  have "snd (downloadFile ?C ''a'') = ?S3"
    and "fst (downloadFile ?C ''a'') = Inl (UnableToRead (Some 1))"
    by (simp_all only: sum.case)
  then show ?thesis
    by (simp only: prod_eq_iff fst_conv snd_conv)
qed

subsection \<open>listDirectory\<close>

lemma packet_state:
  "this_sequence s = this_sequence s' \<Longrightarrow> this_session s = this_session s'
   \<Longrightarrow> packet s opc dat off = packet s' opc dat off"
  by (simp add: packet_def Let_def)

lemma packet_fits:
  assumes "length folder < 2 ^ 8" and "this_sequence this < 2 ^ 16"
    and "this_session this < 2 ^ 8" and "off < 2 ^ 32"
  shows "\<exists>msg. packet this LISTDIRECTORY (DataString folder) off = Inr msg"
  using assms by (simp add: packet_def)

lemma listDirectory_loop_pages:
  assumes "\<forall>a \<in> set acks. opcode a = ACK \<and> decodes a"
    and "opcode nak \<noteq> ACK"
    and "incoming this = map Response acks @ Response nak # rest"
    and "length folder < 2 ^ 8"
    and "this_sequence this < 2 ^ 16"
    and "this_session this < 2 ^ 8"
    and "length result + length (concat (map decoded acks)) < 2 ^ 32"
  shows "\<exists>sent. length sent = Suc (length acks)
     \<and> (\<forall>k \<le> length acks.
          packet (this\<lparr>this_sequence :=
                    (if k = 0 then this_sequence this else unat (seq (acks ! (k - 1))))\<rparr>)
            LISTDIRECTORY (DataString folder)
            (length result + length (concat (map decoded (take k acks))))
          = Inr (sent ! k))
     \<and> listDirectory_loop this folder result
       = (if data0 nak = Some 6 then Inr (result @ concat (map decoded acks))
          else Inl (ProtocolError (FileTransferProtocolError_name (data0 nak))),
          this\<lparr>this_sequence := unat (seq nak),
               this_port := this_port this @ sent,
               incoming := rest\<rparr>)"
  using assms
proof (induction acks arbitrary: this result)
  case Nil
  from packet_fits [OF Nil.prems(4,5,6)] Nil.prems(7)
  obtain msg where msg: "packet this LISTDIRECTORY (DataString folder) (length result) = Inr msg"
    by auto
  from Nil.prems(3) have inc: "incoming this = Response nak # rest" by simp
  have "listDirectory_loop this folder result
       = (if data0 nak = Some 6 then Inr (result @ concat (map decoded []))
          else Inl (ProtocolError (FileTransferProtocolError_name (data0 nak))),
          this\<lparr>this_sequence := unat (seq nak),
               this_port := this_port this @ [msg],
               incoming := rest\<rparr>)"
    using Nil.prems(2)
    by (subst listDirectory_loop_unfold) (simp add: request_answered [OF msg inc])
  moreover have "packet (this\<lparr>this_sequence := this_sequence this\<rparr>)
            LISTDIRECTORY (DataString folder) (length result) = Inr msg"
    using msg by (simp add: packet_state [of "this\<lparr>this_sequence := this_sequence this\<rparr>" this])
  ultimately show ?case
    by (intro exI [of _ "[msg]"]) simp
next
  case (Cons a as)
  from Cons.prems(7) have off0: "length result < 2 ^ 32" by simp
  from packet_fits [OF Cons.prems(4,5,6) off0]
  obtain msg where msg: "packet this LISTDIRECTORY (DataString folder) (length result) = Inr msg"
    by auto
  from Cons.prems(3)
  have inc: "incoming this = Response a # (map Response as @ Response nak # rest)" by simp
  let ?this1 = "this\<lparr>this_sequence := unat (seq a),
                     this_port := this_port this @ [msg],
                     incoming := map Response as @ Response nak # rest\<rparr>"
  from Cons.prems(1) have ack: "opcode a = ACK" and dec: "decodes a" by simp_all
  from dec obtain entries where entries: "parse (data a) = Inr entries"
    by (auto simp add: decodes_def split: sum.splits)
  then have decoded_a: "decoded a = entries" by (simp add: decoded_def)
  have step: "listDirectory_loop this folder result
      = listDirectory_loop ?this1 folder (result @ entries)"
    by (subst listDirectory_loop_unfold) (simp add: request_answered [OF msg inc] ack entries)
  have seq1: "this_sequence ?this1 < 2 ^ 16"
    using unsigned_less [of "seq a", where ?'a = nat] by simp
  from Cons.prems(7) decoded_a
  have bound1: "length (result @ entries) + length (concat (map decoded as)) < 2 ^ 32"
    by simp
  from Cons.prems(1) have acks1: "\<forall>a \<in> set as. opcode a = ACK \<and> decodes a" by simp
  from Cons.IH [of ?this1 "result @ entries", OF acks1 Cons.prems(2) _ Cons.prems(4) seq1 _ bound1]
    Cons.prems(6)
  obtain sent where len: "length sent = Suc (length as)"
    and pages: "\<forall>k \<le> length as.
          packet (?this1\<lparr>this_sequence :=
                    (if k = 0 then this_sequence ?this1 else unat (seq (as ! (k - 1))))\<rparr>)
            LISTDIRECTORY (DataString folder)
            (length (result @ entries) + length (concat (map decoded (take k as))))
          = Inr (sent ! k)"
    and run: "listDirectory_loop ?this1 folder (result @ entries)
       = (if data0 nak = Some 6 then Inr ((result @ entries) @ concat (map decoded as))
          else Inl (ProtocolError (FileTransferProtocolError_name (data0 nak))),
          ?this1\<lparr>this_sequence := unat (seq nak),
               this_port := this_port ?this1 @ sent,
               incoming := rest\<rparr>)"
    by auto
  have first: "packet (this\<lparr>this_sequence := this_sequence this\<rparr>)
            LISTDIRECTORY (DataString folder) (length result) = Inr msg"
    using msg by (simp add: packet_state [of "this\<lparr>this_sequence := this_sequence this\<rparr>" this])
  have later: "packet (this\<lparr>this_sequence := unat (seq ((a # as) ! j))\<rparr>)
            LISTDIRECTORY (DataString folder)
            (length result + length (concat (map decoded (take (Suc j) (a # as)))))
          = Inr (sent ! j)" if "j \<le> length as" for j
  proof -
    let ?sq = "unat (seq ((a # as) ! j))"
    let ?off = "length result + length (concat (map decoded (take (Suc j) (a # as))))"
    have sq: "(if j = 0 then this_sequence ?this1 else unat (seq (as ! (j - 1)))) = ?sq"
      by (cases j) simp_all
    have off: "length (result @ entries) + length (concat (map decoded (take j as))) = ?off"
      by (simp add: decoded_a)
    from pages that
    have "packet (?this1\<lparr>this_sequence :=
                    (if j = 0 then this_sequence ?this1 else unat (seq (as ! (j - 1))))\<rparr>)
            LISTDIRECTORY (DataString folder)
            (length (result @ entries) + length (concat (map decoded (take j as))))
          = Inr (sent ! j)"
      by blast
    then have "packet (?this1\<lparr>this_sequence := ?sq\<rparr>) LISTDIRECTORY (DataString folder) ?off
          = Inr (sent ! j)"
      by (simp only: sq off)
    moreover have "packet (this\<lparr>this_sequence := ?sq\<rparr>) LISTDIRECTORY (DataString folder) ?off
        = packet (?this1\<lparr>this_sequence := ?sq\<rparr>) LISTDIRECTORY (DataString folder) ?off"
      by (rule packet_state) simp_all
    ultimately show ?thesis by (simp only:)
  qed
  have all: "\<forall>k \<le> length (a # as).
          packet (this\<lparr>this_sequence :=
                    (if k = 0 then this_sequence this else unat (seq ((a # as) ! (k - 1))))\<rparr>)
            LISTDIRECTORY (DataString folder)
            (length result + length (concat (map decoded (take k (a # as)))))
          = Inr ((msg # sent) ! k)"
  proof (intro allI impI)
    fix k assume k: "k \<le> length (a # as)"
    show "packet (this\<lparr>this_sequence :=
                    (if k = 0 then this_sequence this else unat (seq ((a # as) ! (k - 1))))\<rparr>)
            LISTDIRECTORY (DataString folder)
            (length result + length (concat (map decoded (take k (a # as)))))
          = Inr ((msg # sent) ! k)"
    proof (cases k)
      case 0
      with first show ?thesis by simp
    next
      case (Suc j)
      with k have "j \<le> length as" by simp
      from later [OF this] Suc show ?thesis by simp
    qed
  qed
  have final: "listDirectory_loop this folder result
       = (if data0 nak = Some 6 then Inr (result @ concat (map decoded (a # as)))
          else Inl (ProtocolError (FileTransferProtocolError_name (data0 nak))),
          this\<lparr>this_sequence := unat (seq nak),
               this_port := this_port this @ (msg # sent),
               incoming := rest\<rparr>)"
    by (simp add: step run decoded_a)
  from len all final show ?case
    by (intro exI [of _ "msg # sent"]) simp
qed

text \<open>
  Claim C5, as stated, does not hold for every sequence of ACK responses followed by an
  EOF NAK: \<^verbatim>\<open>listDirectory\<close> returns only when the data of every ACK decode. Here the
  only ACK carries the listing \<open>F file.txt TAB 1234 NUL D logs NUL\<close>, on which \<^verbatim>\<open>parse\<close>
  throws, and so does \<^verbatim>\<open>listDirectory\<close>, although the next response is the EOF NAK.
\<close>

theorem list_fails_on_ack_that_does_not_decode:
  "fst (listDirectory (constructor
      [Response (example_response ACK 5
         (charCodes ''Ffile.txt'' @ [9] @ charCodes ''1234'' @ [0] @ charCodes ''Dlogs'' @ [0])),
       Response (example_response NAK 6 [6])]) ''/'')
     = Inl (UnknownEntryType 108)"
  by (simp add: listDirectory_def)
     (subst listDirectory_loop_unfold, simp add: request_eval packet_eval parse_eval)

text \<open>
  Claim C5, amended. Let the responses to come be ACKs whose data all decode, followed by
  a NAK, followed by anything; let the folder name have at most 255 characters, the
  sequence and session numbers fit their fields, and the number of entries fit 32 bits.
  Then \<^verbatim>\<open>listDirectory\<close> hands exactly one request per ACK and one more to the port; the
  request number \<open>k\<close> (from 0) is the LISTDIRECTORY packet whose offset is the number of
  entries decoded from the first \<open>k\<close> ACKs (its sequence field is the \<^verbatim>\<open>seq\<close> of the
  previous response); nothing after the NAK is consumed; and the result is the
  concatenation, in order of receipt, of the entries of the ACKs when the first data byte
  of the NAK is EOF (6), and otherwise the error the table names for that byte.
\<close>

theorem list_pagination:
  assumes "\<forall>a \<in> set acks. opcode a = ACK \<and> decodes a"
    and "opcode nak = NAK"
    and "incoming this = map Response (acks @ [nak]) @ rest"
    and "length folder < 2 ^ 8"
    and "this_sequence this < 2 ^ 16"
    and "this_session this < 2 ^ 8"
    and "length (concat (map decoded acks)) < 2 ^ 32"
  shows "\<exists>sent. length sent = Suc (length acks)
     \<and> (\<forall>k \<le> length acks.
          packet (this\<lparr>this_sequence :=
                    (if k = 0 then this_sequence this else unat (seq (acks ! (k - 1))))\<rparr>)
            LISTDIRECTORY (DataString folder)
            (length (concat (map decoded (take k acks))))
          = Inr (sent ! k))
     \<and> listDirectory this folder
       = (if data0 nak = Some 6 then Inr (concat (map decoded acks))
          else Inl (ProtocolError (FileTransferProtocolError_name (data0 nak))),
          this\<lparr>this_sequence := unat (seq nak),
               this_port := this_port this @ sent,
               incoming := rest\<rparr>)"
proof -
  from assms(2) have nak: "opcode nak \<noteq> ACK"
    by (simp add: NAK_def ACK_def)
  from assms(3) have inc: "incoming this = map Response acks @ Response nak # rest"
    by simp
  from assms(7) have bound: "length ([] :: MavFTPDirectoryListingEntry list)
      + length (concat (map decoded acks)) < 2 ^ 32"
    by simp
  from listDirectory_loop_pages [OF assms(1) nak inc assms(4,5,6) bound]
  show ?thesis
    by (simp only: listDirectory_def append_Nil list.size add_0)
qed

theorem list_pagination_witness:
  "listDirectory (constructor
      [Response example_page1, Response example_page2, Response example_eof,
       Response example_ack]) ''/''
   = (Inr [\<lparr>entry_type = ''directory'', entry_name = ''l'', entry_size = None\<rparr>,
           \<lparr>entry_type = ''file'', entry_name = ''m'', entry_size = Some (Num 12)\<rparr>,
           \<lparr>entry_type = ''directory'', entry_name = ''n'', entry_size = None\<rparr>],
      \<lparr>this_session = 1, this_sequence = 7,
       this_port =
         [\<lparr>targetNetwork = 0, targetSystem = 1, targetComponent = 1,
            payload = [0, 0, 1, 3, 1, 0, 0, 0, 0, 0, 0, 0, 47]\<rparr>,
          \<lparr>targetNetwork = 0, targetSystem = 1, targetComponent = 1,
            payload = [5, 0, 1, 3, 1, 0, 0, 0, 1, 0, 0, 0, 47]\<rparr>,
          \<lparr>targetNetwork = 0, targetSystem = 1, targetComponent = 1,
            payload = [6, 0, 1, 3, 1, 0, 0, 0, 3, 0, 0, 0, 47]\<rparr>],
       incoming = [Response example_ack], progress = []\<rparr>)"
proof -
  let ?A1 = example_page1
  let ?A2 = example_page2
  let ?N = example_eof
  let ?rest = "[Response example_ack]"
  let ?C = "constructor [Response ?A1, Response ?A2, Response ?N, Response example_ack]"
  have d1: "parse (data ?A1)
      = Inr [\<lparr>entry_type = ''directory'', entry_name = ''l'', entry_size = None\<rparr>]"
    by (simp add: example_page1_def example_response_def parse_eval)
  have d2: "parse (data ?A2)
      = Inr [\<lparr>entry_type = ''file'', entry_name = ''m'', entry_size = Some (Num 12)\<rparr>,
             \<lparr>entry_type = ''directory'', entry_name = ''n'', entry_size = None\<rparr>]"
    by (simp add: example_page2_def example_response_def parse_eval)
  have h1: "\<forall>a \<in> set [?A1, ?A2]. opcode a = ACK \<and> decodes a"
    by (simp add: decodes_def d1 d2) (simp add: example_page1_def example_page2_def example_response_def)
  have h2: "opcode ?N = NAK"
    by (simp add: example_eof_def example_response_def)
  have h3: "incoming ?C = map Response ([?A1, ?A2] @ [?N]) @ ?rest"
    by (simp add: constructor_def)
  have h4: "length ''/'' < 2 ^ 8" by simp
  have h5: "this_sequence ?C < 2 ^ 16" by (simp add: constructor_def)
  have h6: "this_session ?C < 2 ^ 8" by (simp add: constructor_def)
  have h7: "length (concat (map decoded [?A1, ?A2])) < 2 ^ 32"
    by (simp add: decoded_def d1 d2)
  from list_pagination [OF h1 h2 h3 h4 h5 h6 h7]
  obtain sent where len: "length sent = Suc (length [?A1, ?A2])"
    and pages: "\<forall>k \<le> length [?A1, ?A2].
          packet (?C\<lparr>this_sequence :=
                    (if k = 0 then this_sequence ?C else unat (seq ([?A1, ?A2] ! (k - 1))))\<rparr>)
            LISTDIRECTORY (DataString ''/'')
            (length (concat (map decoded (take k [?A1, ?A2]))))
          = Inr (sent ! k)"
    and run: "listDirectory ?C ''/''
       = (if data0 ?N = Some 6 then Inr (concat (map decoded [?A1, ?A2]))
          else Inl (ProtocolError (FileTransferProtocolError_name (data0 ?N))),
          ?C\<lparr>this_sequence := unat (seq ?N),
               this_port := this_port ?C @ sent,
               incoming := ?rest\<rparr>)"
    by blast
  from pages [rule_format, of 0]
  have s0: "sent ! 0 = \<lparr>targetNetwork = 0, targetSystem = 1, targetComponent = 1,
            payload = [0, 0, 1, 3, 1, 0, 0, 0, 0, 0, 0, 0, 47]\<rparr>"
    by (simp add: packet_def serialize_def writeUInt16LE_def writeUInt32LE_def encode_def
        constructor_def LISTDIRECTORY_def)
  from pages [rule_format, of 1]
  have s1: "sent ! 1 = \<lparr>targetNetwork = 0, targetSystem = 1, targetComponent = 1,
            payload = [5, 0, 1, 3, 1, 0, 0, 0, 1, 0, 0, 0, 47]\<rparr>"
    by (simp add: decoded_def d1)
       (simp add: packet_def serialize_def writeUInt16LE_def writeUInt32LE_def encode_def
        constructor_def LISTDIRECTORY_def example_response_def example_page1_def)
  from pages [rule_format, of 2]
  have s2: "sent ! 2 = \<lparr>targetNetwork = 0, targetSystem = 1, targetComponent = 1,
            payload = [6, 0, 1, 3, 1, 0, 0, 0, 3, 0, 0, 0, 47]\<rparr>"
    by (simp add: decoded_def d1 d2)
       (simp add: packet_def serialize_def writeUInt16LE_def writeUInt32LE_def encode_def
        constructor_def LISTDIRECTORY_def example_response_def example_page1_def example_page2_def)
  from len obtain x y z where "sent = [x, y, z]"
    by (auto simp add: length_Suc_conv)
  with s0 s1 s2 have sent: "sent = [\<lparr>targetNetwork = 0, targetSystem = 1, targetComponent = 1,
            payload = [0, 0, 1, 3, 1, 0, 0, 0, 0, 0, 0, 0, 47]\<rparr>,
          \<lparr>targetNetwork = 0, targetSystem = 1, targetComponent = 1,
            payload = [5, 0, 1, 3, 1, 0, 0, 0, 1, 0, 0, 0, 47]\<rparr>,
          \<lparr>targetNetwork = 0, targetSystem = 1, targetComponent = 1,
            payload = [6, 0, 1, 3, 1, 0, 0, 0, 3, 0, 0, 0, 47]\<rparr>]"
    by simp
  from run show ?thesis
    by (simp add: sent decoded_def d1 d2)
       (simp add: example_response_def example_eof_def data0_def constructor_def)
qed

end
